theory Spec2Isabelle
  imports Main "HOL-Library.Sublist"
begin

section \<open>Document format validation (agents/document\_intelligence\_agent.py)\<close>

text \<open>
  Strings are lists of 8-bit characters. \<open>str.lower()\<close> is modelled on the ASCII
  letters; every other byte is left alone. (The bytes of a UTF-8 encoded non-ASCII
  character never lowercase to one of the letters used by the supported extensions.)
\<close>

definition lower_char :: "char \<Rightarrow> char" where
  "lower_char c =
     (case map_of (zip ''ABCDEFGHIJKLMNOPQRSTUVWXYZ'' ''abcdefghijklmnopqrstuvwxyz'') c of
        Some l \<Rightarrow> l
      | None \<Rightarrow> c)"

definition lower :: "string \<Rightarrow> string" where
  "lower s = map lower_char s"

text \<open>
  \<open>pathlib.Path(p)\<close> on a POSIX system: the path is cut at every \<open>/\<close>, empty
  components and \<open>.\<close> components are dropped, and \<open>name\<close> is the last component
  that is left (the empty string when there is none).
\<close>

fun split_sep :: "char \<Rightarrow> string \<Rightarrow> string list" where
  "split_sep c [] = [[]]"
| "split_sep c (x # xs) =
     (if x = c then [] # split_sep c xs
      else (case split_sep c xs of
              [] \<Rightarrow> [[x]]
            | w # ws \<Rightarrow> (x # w) # ws))"

definition path_parts :: "string \<Rightarrow> string list" where
  "path_parts p = filter (\<lambda>c. c \<noteq> [] \<and> c \<noteq> ''.'') (split_sep CHR ''/'' p)"

definition path_name :: "string \<Rightarrow> string" where
  "path_name p = (case path_parts p of [] \<Rightarrow> [] | c # cs \<Rightarrow> last (c # cs))"

text \<open>\<open>str.rfind(c)\<close>: the highest index holding \<open>c\<close>, or \<open>-1\<close>.\<close>

definition rfind :: "char \<Rightarrow> string \<Rightarrow> int" where
  "rfind c s =
     (case filter (\<lambda>i. s ! i = c) (rev [0..<length s]) of
        [] \<Rightarrow> - 1
      | i # _ \<Rightarrow> int i)"

text \<open>
  \<open>PurePath.suffix\<close>:
  \<^verbatim>\<open>
    name = self.name
    i = name.rfind('.')
    if 0 < i < len(name) - 1: return name[i:]
    else: return ''
  \<close>
\<close>

definition suffix_of :: "string \<Rightarrow> string" where
  "suffix_of p =
     (let name = path_name p; i = rfind CHR ''.'' name
      in if 0 < i \<and> i < int (length name) - 1 then drop (nat i) name else [])"

definition get_supported_formats :: "string list" where
  "get_supported_formats =
     [''.pdf'', ''.png'', ''.jpg'', ''.jpeg'', ''.tiff'', ''.bmp'', ''.docx'', ''.doc'', ''.txt'']"

definition validate_document :: "string \<Rightarrow> bool" where
  "validate_document file_path =
     (let file_extension = lower (suffix_of file_path)
      in file_extension \<in> set get_supported_formats)"

section \<open>Exceptions and configuration\<close>

text \<open>
  The exceptions the code raises itself are \<open>RuntimeError\<close>, \<open>ValueError\<close> and
  \<open>KeyError\<close>; \<open>LibraryError\<close> stands for any other instance of \<open>Exception\<close>
  raised by a backend or a library. \<open>str_of\<close> is \<open>str(e)\<close>.
\<close>

datatype exn = RuntimeError string | ValueError string | KeyError string | LibraryError string

fun str_of :: "exn \<Rightarrow> string" where
  "str_of (RuntimeError m) = m"
| "str_of (ValueError m) = m"
| "str_of (KeyError m) = CHR 0x27 # m @ [CHR 0x27]"
| "str_of (LibraryError m) = m"

text \<open>The fields of \<open>config/settings.py\<close> that the modelled code reads.\<close>

record settings =
  MODEL_PROVIDER :: string
  FALLBACK_PROVIDER :: string
  MAX_CONTEXT_TOKENS :: int
  OLLAMA_API_BASE :: string
  OLLAMA_MODEL :: string
  OLLAMA_VISION_MODEL :: string

section \<open>UnifiedModelManager (utils/model\_manager.py)\<close>

text \<open>
  A Python \<open>dict\<close> keeps insertion order: it is an association list with distinct keys.
  \<open>dict_set\<close> is \<open>d[k] = v\<close>, \<open>dict_has\<close> is \<open>k in d\<close>, \<open>dict_keys\<close> is
  \<open>list(d.keys())\<close>, and \<open>map_of d k\<close> is \<open>d[k]\<close> on a key that is present.
\<close>

fun dict_set :: "'k \<Rightarrow> 'v \<Rightarrow> ('k \<times> 'v) list \<Rightarrow> ('k \<times> 'v) list" where
  "dict_set k v [] = [(k, v)]"
| "dict_set k v ((k', v') # d) = (if k' = k then (k, v) # d else (k', v') # dict_set k v d)"

definition dict_has :: "('k \<times> 'v) list \<Rightarrow> 'k \<Rightarrow> bool" where
  "dict_has d k = (map_of d k \<noteq> None)"

definition dict_keys :: "('k \<times> 'v) list \<Rightarrow> 'k list" where
  "dict_keys d = map fst d"

text \<open>
  Provider objects are references of type \<open>'p\<close>, compared by identity. The manager holds
  the dict \<open>providers\<close> and the two references \<open>active_provider\<close> and
  \<open>fallback_provider\<close>, each \<open>None\<close> until set.
\<close>

record 'p manager =
  providers :: "(string \<times> 'p) list"
  active_provider :: "'p option"
  fallback_provider :: "'p option"

text \<open>The two provider objects that \<open>_initialize_providers\<close> creates.\<close>

datatype provider = OllamaProvider | HuggingFaceProvider

text \<open>
  A method whose name starts with an underscore is written without it.
  \<open>_initialize_providers\<close>: each provider is constructed and probed inside
  \<open>try ... except Exception\<close>; the outcome of the probe is \<open>Inr b\<close> when
  \<open>is_available()\<close> returned \<open>b\<close> and \<open>Inl e\<close> when construction or probe raised.
  Only a provider whose probe returned true is stored.
\<close>

definition register_if_available ::
  "string \<Rightarrow> 'p \<Rightarrow> exn + bool \<Rightarrow> 'p manager \<Rightarrow> 'p manager" where
  "register_if_available name p probe m =
     (case probe of
        Inr True \<Rightarrow> m\<lparr>providers := dict_set name p (providers m)\<rparr>
      | Inr False \<Rightarrow> m
      | Inl e \<Rightarrow> m)"

text \<open>
  \<open>_set_active_provider\<close>: the primary becomes active when it is registered, the
  fallback reference is set when the fallback is registered and differs from the primary,
  and with no active provider yet the first key of the registry is taken.
\<close>

definition set_active_provider :: "settings \<Rightarrow> 'p manager \<Rightarrow> 'p manager" where
  "set_active_provider S m =
     (let primary = MODEL_PROVIDER S;
          fallback = FALLBACK_PROVIDER S;
          m1 = (if dict_has (providers m) primary
                then m\<lparr>active_provider := map_of (providers m) primary\<rparr>
                else m);
          m2 = (if dict_has (providers m1) fallback \<and> fallback \<noteq> primary
                then m1\<lparr>fallback_provider := map_of (providers m1) fallback\<rparr>
                else m1)
      in case providers m2 of
           [] \<Rightarrow> m2
         | (provider_name, p) # rest \<Rightarrow>
             (if active_provider m2 = None
              then m2\<lparr>active_provider := map_of (providers m2) provider_name\<rparr>
              else m2))"

definition initialize_providers ::
  "settings \<Rightarrow> exn + bool \<Rightarrow> exn + bool \<Rightarrow> provider manager \<Rightarrow> provider manager" where
  "initialize_providers S ollama_probe hf_probe m =
     set_active_provider S
       (register_if_available ''huggingface'' HuggingFaceProvider hf_probe
         (register_if_available ''ollama'' OllamaProvider ollama_probe m))"

text \<open>\<open>UnifiedModelManager.__init__\<close>.\<close>

definition new_manager :: "settings \<Rightarrow> exn + bool \<Rightarrow> exn + bool \<Rightarrow> provider manager" where
  "new_manager S ollama_probe hf_probe =
     initialize_providers S ollama_probe hf_probe
       \<lparr>providers = [], active_provider = None, fallback_provider = None\<rparr>"

text \<open>
  A backend gives each provider object its \<open>generate\<close>: from the prompt, the keyword
  arguments and the state of the outside world to the text or the exception raised, and
  the world afterwards.
\<close>

type_synonym ('p, 'k, 'w) backend = "'p \<Rightarrow> string \<Rightarrow> 'k \<Rightarrow> 'w \<Rightarrow> (exn + string) \<times> 'w"

text \<open>
  \<open>UnifiedModelManager.generate\<close>. A bare \<open>raise\<close> inside the inner handler re-raises
  the exception being handled there, the fallback's; the one in the \<open>else\<close> branch
  re-raises the active provider's.
\<close>

definition generate ::
  "('p, 'k, 'w) backend \<Rightarrow> 'p manager \<Rightarrow> string \<Rightarrow> 'k \<Rightarrow> 'w \<Rightarrow> (exn + string) \<times> 'w" where
  "generate be m prompt kwargs w =
     (case active_provider m of
        None \<Rightarrow> (Inl (RuntimeError ''No model providers available''), w)
      | Some a \<Rightarrow>
          (case be a prompt kwargs w of
             (Inr text, w1) \<Rightarrow> (Inr text, w1)
           | (Inl e, w1) \<Rightarrow>
               (case fallback_provider m of
                  Some f \<Rightarrow>
                    (case be f prompt kwargs w1 of
                       (Inr text, w2) \<Rightarrow> (Inr text, w2)
                     | (Inl fallback_error, w2) \<Rightarrow> (Inl fallback_error, w2))
                | None \<Rightarrow> (Inl e, w1))))"

definition get_available_providers :: "'p manager \<Rightarrow> string list" where
  "get_available_providers m = dict_keys (providers m)"

text \<open>\<open>switch_provider\<close> returns a boolean on both paths and raises on neither.\<close>

definition switch_provider :: "string \<Rightarrow> 'p manager \<Rightarrow> (exn + bool) \<times> 'p manager" where
  "switch_provider provider_name m =
     (if dict_has (providers m) provider_name
      then (Inr True, m\<lparr>active_provider := map_of (providers m) provider_name\<rparr>)
      else (Inr False, m))"

text \<open>
  \<open>get_active_provider_name\<close>: the first name in the dict whose object is the active
  one, or \<open>None\<close>.
\<close>

definition get_active_provider_name :: "'p manager \<Rightarrow> string option" where
  "get_active_provider_name m =
     (case find (\<lambda>(name, p). Some p = active_provider m) (providers m) of
        Some (name, p) \<Rightarrow> Some name
      | None \<Rightarrow> None)"

text \<open>
  A backend that records each call it serves: the world is paired with the list of the
  provider objects called so far.
\<close>

definition logged :: "('p, 'k, 'w) backend \<Rightarrow> ('p, 'k, 'w \<times> 'p list) backend" where
  "logged be p prompt kwargs wl =
     (case be p prompt kwargs (fst wl) of (r, w') \<Rightarrow> (r, (w', snd wl @ [p])))"

section \<open>DocumentIntelligenceAgent (agents/document\_intelligence\_agent.py)\<close>

datatype splitter = TextSplitter string | ImageSplitter string

datatype splitting_strategy = EAGER | LAZY

datatype completion_strategy = CONCATENATE | PAGINATE | FORBIDDEN

text \<open>An extracted item, as the mapping from field names to values it converts to.\<close>

type_synonym contract = "(string \<times> string) list"

text \<open>
  The calls that leave the repository, each a function of the state \<open>'w\<close> of the outside
  world (file system, extraction library, model servers):
  \<^item> \<open>load_llm name\<close> is \<open>self.extractor.load_llm(name)\<close>;
  \<^item> \<open>load_splitter s\<close> is constructing the splitter \<open>s\<close> and
    \<open>self.process.load_splitter(s)\<close>;
  \<^item> \<open>run_extract path vision split completion\<close> is the two \<open>os.makedirs\<close> calls and
    \<open>self.process.load_file(path).split(...).extract(...)\<close>;
  \<^item> \<open>path_exists\<close> is \<open>os.path.exists\<close>, which returns a boolean for every string;
  \<^item> \<open>read_file path\<close> is \<open>open(path, 'rb')\<close> followed by \<open>file.read()\<close>.
  An outcome \<open>Some e\<close> or \<open>Inl e\<close> is the exception the call raised.
\<close>

record 'w library =
  load_llm :: "string \<Rightarrow> 'w \<Rightarrow> exn option \<times> 'w"
  load_splitter :: "splitter \<Rightarrow> 'w \<Rightarrow> exn option \<times> 'w"
  run_extract :: "string \<Rightarrow> bool \<Rightarrow> splitting_strategy \<Rightarrow> completion_strategy \<Rightarrow> 'w
                \<Rightarrow> (exn + contract list) \<times> 'w"
  path_exists :: "'w \<Rightarrow> string \<Rightarrow> bool"
  read_file :: "string \<Rightarrow> 'w \<Rightarrow> exn option \<times> 'w"

text \<open>
  The state the agent's methods read and write: the module-level \<open>model_manager\<close>,
  \<open>os.environ["API_BASE"]\<close>, the model loaded into \<open>self.extractor\<close>, the splitter
  loaded into \<open>self.process\<close>, and the outside world.
\<close>

record ('p, 'w) agent =
  model_manager :: "'p manager"
  api_base :: "string option"
  extractor_llm :: "string option"
  process_splitter :: "splitter option"
  world :: 'w

definition call_load_llm ::
  "'w library \<Rightarrow> string \<Rightarrow> ('p, 'w) agent \<Rightarrow> exn option \<times> ('p, 'w) agent" where
  "call_load_llm L model_name a =
     (case load_llm L model_name (world a) of
        (None, w') \<Rightarrow> (None, a\<lparr>extractor_llm := Some model_name, world := w'\<rparr>)
      | (Some e, w') \<Rightarrow> (Some e, a\<lparr>world := w'\<rparr>))"

definition call_load_splitter ::
  "'w library \<Rightarrow> splitter \<Rightarrow> ('p, 'w) agent \<Rightarrow> exn option \<times> ('p, 'w) agent" where
  "call_load_splitter L s a =
     (case load_splitter L s (world a) of
        (None, w') \<Rightarrow> (None, a\<lparr>process_splitter := Some s, world := w'\<rparr>)
      | (Some e, w') \<Rightarrow> (Some e, a\<lparr>world := w'\<rparr>))"

definition ollama_model_name :: "settings \<Rightarrow> string" where
  "ollama_model_name S = ''ollama/'' @ OLLAMA_MODEL S"

text \<open>\<open>_setup_huggingface_extractor\<close>: its handler logs and re-raises.\<close>

definition setup_huggingface_extractor ::
  "settings \<Rightarrow> 'w library \<Rightarrow> ('p, 'w) agent \<Rightarrow> exn option \<times> ('p, 'w) agent" where
  "setup_huggingface_extractor S L a =
     (if ''huggingface'' \<notin> set (get_available_providers (model_manager a))
      then (Some (RuntimeError ''Hugging Face provider not available''), a)
      else call_load_llm L (ollama_model_name S) (a\<lparr>api_base := Some (OLLAMA_API_BASE S)\<rparr>))"

text \<open>
  \<open>_configure_model_provider\<close>: whatever the \<open>try\<close> body raises, the handler loads the
  Ollama model again, and what that call raises leaves the method.
\<close>

definition configure_model_provider ::
  "settings \<Rightarrow> 'w library \<Rightarrow> ('p, 'w) agent \<Rightarrow> exn option \<times> ('p, 'w) agent" where
  "configure_model_provider S L a =
     (let active = get_active_provider_name (model_manager a);
          attempt =
            (if active = Some ''ollama''
             then call_load_llm L (ollama_model_name S) (a\<lparr>api_base := Some (OLLAMA_API_BASE S)\<rparr>)
             else if active = Some ''huggingface''
             then setup_huggingface_extractor S L a
             else call_load_llm L (ollama_model_name S) a)
      in case attempt of
           (None, a1) \<Rightarrow> (None, a1)
         | (Some e, a1) \<Rightarrow>
             call_load_llm L (ollama_model_name S) (a1\<lparr>api_base := Some (OLLAMA_API_BASE S)\<rparr>))"

text \<open>
  \<open>_configure_splitter\<close>: the splitter is chosen from \<open>MAX_CONTEXT_TOKENS\<close> alone; the
  active provider's name only picks the model name handed to it. When building or loading
  the chosen splitter raises, the handler loads \<open>TextSplitter(model="text-splitter")\<close>.
\<close>

definition choose_splitter :: "settings \<Rightarrow> string option \<Rightarrow> splitter" where
  "choose_splitter S active =
     (if MAX_CONTEXT_TOKENS S \<le> 8192
      then TextSplitter (if active = Some ''ollama''
                         then ollama_model_name S else ''text-splitter'')
      else ImageSplitter (if active = Some ''ollama''
                          then ''ollama/'' @ OLLAMA_VISION_MODEL S else ''vision-splitter''))"

definition configure_splitter ::
  "settings \<Rightarrow> 'w library \<Rightarrow> ('p, 'w) agent \<Rightarrow> exn option \<times> ('p, 'w) agent" where
  "configure_splitter S L a =
     (let active = get_active_provider_name (model_manager a)
      in case call_load_splitter L (choose_splitter S active) a of
           (None, a1) \<Rightarrow> (None, a1)
         | (Some e, a1) \<Rightarrow> call_load_splitter L (TextSplitter ''text-splitter'') a1)"

text \<open>\<open>process_document\<close>: its handler logs and re-raises.\<close>

definition process_document ::
  "'w library \<Rightarrow> ('p, 'w) agent \<Rightarrow> string \<Rightarrow> bool \<Rightarrow> splitting_strategy \<Rightarrow> completion_strategy
     \<Rightarrow> (exn + contract list) \<times> ('p, 'w) agent" where
  "process_document L a file_path use_vision splitting completion =
     (case run_extract L file_path use_vision splitting completion (world a) of
        (result, w') \<Rightarrow> (result, a\<lparr>world := w'\<rparr>))"

text \<open>Substring test, Python's \<open>sub in s\<close>.\<close>

fun contains :: "string \<Rightarrow> string \<Rightarrow> bool" where
  "contains sub [] = (sub = [])"
| "contains sub (c # cs) = (prefix sub (c # cs) \<or> contains sub cs)"

text \<open>\<open>classify_document\<close>: a file that cannot be opened or read gives \<open>None\<close>.\<close>

definition classify_by_name :: "string \<Rightarrow> string" where
  "classify_by_name file_name =
     (if contains ''invoice'' file_name \<or> contains ''bill'' file_name then ''Invoice''
      else if contains ''license'' file_name \<or> contains ''dl'' file_name then ''Driver License''
      else if contains ''passport'' file_name then ''Passport''
      else if contains ''business'' file_name \<or> contains ''card'' file_name then ''Business Card''
      else ''Unknown'')"

definition classify_document ::
  "'w library \<Rightarrow> ('p, 'w) agent \<Rightarrow> string \<Rightarrow> string option \<times> ('p, 'w) agent" where
  "classify_document L a file_path =
     (case read_file L file_path (world a) of
        (None, w') \<Rightarrow> (Some (classify_by_name (lower (path_name file_path))), a\<lparr>world := w'\<rparr>)
      | (Some e, w') \<Rightarrow> (None, a\<lparr>world := w'\<rparr>))"

definition extract_with_pagination ::
  "'w library \<Rightarrow> ('p, 'w) agent \<Rightarrow> string \<Rightarrow> (exn + contract list) \<times> ('p, 'w) agent" where
  "extract_with_pagination L a file_path =
     (case process_document L a file_path False LAZY PAGINATE of
        (Inr result, a') \<Rightarrow> (Inr result, a')
      | (Inl e, a') \<Rightarrow> (Inl e, a'))"

text \<open>
  \<open>switch_model_provider\<close>: the manager is switched first; an exception from the
  reconfiguration that follows is caught and turned into the result \<open>False\<close>.
\<close>

definition switch_model_provider ::
  "settings \<Rightarrow> 'w library \<Rightarrow> string \<Rightarrow> ('p, 'w) agent \<Rightarrow> bool \<times> ('p, 'w) agent" where
  "switch_model_provider S L provider_name a =
     (case switch_provider provider_name (model_manager a) of
        (Inl e, m') \<Rightarrow> (False, a\<lparr>model_manager := m'\<rparr>)
      | (Inr success, m') \<Rightarrow>
          (if success
           then (case configure_model_provider S L (a\<lparr>model_manager := m'\<rparr>) of
                   (Some e, a1) \<Rightarrow> (False, a1)
                 | (None, a1) \<Rightarrow>
                     (case configure_splitter S L a1 of
                        (Some e, a2) \<Rightarrow> (False, a2)
                      | (None, a2) \<Rightarrow> (success, a2)))
           else (success, a\<lparr>model_manager := m'\<rparr>)))"

text \<open>Truth value of an \<open>Optional[str]\<close>: \<open>None\<close> and the empty string are false.\<close>

fun truthy :: "string option \<Rightarrow> bool" where
  "truthy None = False"
| "truthy (Some s) = (s \<noteq> [])"

text \<open>
  \<open>process_document_with_provider\<close>: the \<open>try\<close> body, then the \<open>finally\<close> block, which
  runs on both exits and leaves the body's result or exception as it is.
\<close>

definition process_document_with_provider ::
  "settings \<Rightarrow> 'w library \<Rightarrow> ('p, 'w) agent \<Rightarrow> string \<Rightarrow> string option \<Rightarrow> bool
     \<Rightarrow> splitting_strategy \<Rightarrow> completion_strategy \<Rightarrow> (exn + contract list) \<times> ('p, 'w) agent" where
  "process_document_with_provider S L a file_path provider_name use_vision splitting completion =
     (let original_provider = get_active_provider_name (model_manager a);
          body =
            (case provider_name of
               Some name \<Rightarrow>
                 (if truthy provider_name \<and> provider_name \<noteq> original_provider
                  then (case switch_model_provider S L name a of
                          (False, a1) \<Rightarrow>
                            (Inl (ValueError (''Cannot switch to provider: '' @ name)), a1)
                        | (True, a1) \<Rightarrow>
                            process_document L a1 file_path use_vision splitting completion)
                  else process_document L a file_path use_vision splitting completion)
             | None \<Rightarrow> process_document L a file_path use_vision splitting completion)
      in case original_provider of
           Some original \<Rightarrow>
             (if truthy provider_name \<and> provider_name \<noteq> original_provider
                   \<and> truthy original_provider
              then (fst body, snd (switch_model_provider S L original (snd body)))
              else body)
         | None \<Rightarrow> body)"

section \<open>DocumentIntelligenceWorkflow (workflows/document\_intelligence\_workflow.py)\<close>

datatype message = HumanMessage string | AIMessage string

fun content :: "message \<Rightarrow> string" where
  "content (HumanMessage c) = c"
| "content (AIMessage c) = c"

text \<open>
  \<open>DocumentProcessingState\<close> is a dictionary: a key that was never written is absent
  (\<open>None\<close>). The initial state holds \<open>messages\<close>, \<open>document_path\<close>, \<open>use_vision\<close> and
  \<open>enable_pii_masking\<close> only.
\<close>

record processing_state =
  messages :: "message list"
  document_path :: string
  document_type :: "string option"
  extracted_data :: "contract list option"
  processing_status :: "string option"
  error_message :: "string option"
  use_vision :: bool
  enable_pii_masking :: bool

text \<open>Decimal rendering of a length inside an f-string.\<close>

definition digit_char :: "nat \<Rightarrow> char" where
  "digit_char d = ''0123456789'' ! d"

fun str_nat :: "nat \<Rightarrow> string" where
  "str_nat n = (if n < 10 then [digit_char n] else str_nat (n div 10) @ [digit_char (n mod 10)])"

text \<open>
  The methods of the workflow work on the agent it owns and on the processing state.
  The node \<open>_validate_document\<close>; nothing in its \<open>try\<close> body raises on a string path.
\<close>

definition node_validate_document ::
  "'w library \<Rightarrow> ('p, 'w) agent \<times> processing_state \<Rightarrow> ('p, 'w) agent \<times> processing_state" where
  "node_validate_document L x =
     (case x of (a, state) \<Rightarrow>
        (let path = document_path state
         in if path = []
            then (a, state\<lparr>processing_status := Some ''error'',
                           error_message := Some ''No document path provided''\<rparr>)
            else if \<not> path_exists L (world a) path
            then (a, state\<lparr>processing_status := Some ''error'',
                           error_message := Some (''Document not found: '' @ path)\<rparr>)
            else if \<not> validate_document path
            then (a, state\<lparr>processing_status := Some ''error'',
                           error_message :=
                             Some (''Unsupported document format: '' @ suffix_of path)\<rparr>)
            else (a, state\<lparr>processing_status := Some ''validated'',
                           messages := messages state @
                             [AIMessage (''Document validated successfully: '' @ path_name path)]\<rparr>)))"

text \<open>The node \<open>_classify_document\<close>; \<open>classify_document\<close> catches what it raises.\<close>

definition node_classify_document ::
  "'w library \<Rightarrow> ('p, 'w) agent \<times> processing_state \<Rightarrow> ('p, 'w) agent \<times> processing_state" where
  "node_classify_document L x =
     (case x of (a, state) \<Rightarrow>
        (case classify_document L a (document_path state) of
           (found, a') \<Rightarrow>
             (let doc_type = (case found of
                                Some t \<Rightarrow> (if t = [] then ''Unknown'' else t)
                              | None \<Rightarrow> ''Unknown'')
              in (a', state\<lparr>document_type := Some doc_type,
                             processing_status := Some ''classified'',
                             messages := messages state @
                               [AIMessage (''Document classified as: '' @ doc_type)]\<rparr>))))"

text \<open>The node \<open>_process_document\<close>.\<close>

definition node_process_document ::
  "settings \<Rightarrow> 'w library \<Rightarrow> ('p, 'w) agent \<times> processing_state
     \<Rightarrow> ('p, 'w) agent \<times> processing_state" where
  "node_process_document S L x =
     (case x of (a, state) \<Rightarrow>
        (let path = document_path state;
             limited = (MAX_CONTEXT_TOKENS S \<le> 8192);
             strategy_used = (if limited then ''pagination (limited context)''
                              else ''standard processing'')
         in case (if limited then extract_with_pagination L a path
                  else process_document L a path (use_vision state) LAZY PAGINATE) of
              (Inr data, a') \<Rightarrow>
                (a', state\<lparr>extracted_data := Some data,
                            processing_status := Some ''completed'',
                            messages := messages state @
                              [AIMessage (''Document processed successfully using '' @ strategy_used
                                 @ ''. Extracted '' @ str_nat (length data) @ '' data items.'')]\<rparr>)
            | (Inl e, a') \<Rightarrow>
                (a', state\<lparr>processing_status := Some ''error'',
                            error_message := Some (''Processing failed: '' @ str_of e)\<rparr>)))"

text \<open>The node \<open>_handle_error\<close>.\<close>

definition node_handle_error ::
  "('p, 'w) agent \<times> processing_state \<Rightarrow> ('p, 'w) agent \<times> processing_state" where
  "node_handle_error x =
     (case x of (a, state) \<Rightarrow>
        (let msg = (case error_message state of
                      Some m \<Rightarrow> m
                    | None \<Rightarrow> ''Unknown error occurred'')
         in (a, state\<lparr>messages := messages state @ [AIMessage (''Error: '' @ msg)]\<rparr>)))"

text \<open>The two routers read \<open>state["processing_status"]\<close>, a \<open>KeyError\<close> when absent.\<close>

definition should_continue_after_validation :: "processing_state \<Rightarrow> exn + string" where
  "should_continue_after_validation state =
     (case processing_status state of
        None \<Rightarrow> Inl (KeyError ''processing_status'')
      | Some st \<Rightarrow> Inr (if st = ''validated'' then ''continue'' else ''error''))"

definition should_end_workflow :: "processing_state \<Rightarrow> exn + string" where
  "should_end_workflow state =
     (case processing_status state of
        None \<Rightarrow> Inl (KeyError ''processing_status'')
      | Some st \<Rightarrow> Inr (if st = ''completed'' then ''end'' else ''error''))"

text \<open>
  The graph of \<open>_create_workflow\<close>: four nodes and \<open>END\<close>, the edge out of each node, the
  conditional ones through the router and its table.
\<close>

datatype node = Validate_document | Classify_document | Process_document | Handle_error | END

definition route :: "exn + string \<Rightarrow> (string \<times> node) list \<Rightarrow> exn + node" where
  "route key table =
     (case key of
        Inl e \<Rightarrow> Inl e
      | Inr k \<Rightarrow> (case map_of table k of
                    Some n \<Rightarrow> Inr n
                  | None \<Rightarrow> Inl (KeyError k)))"

fun next_node :: "node \<Rightarrow> processing_state \<Rightarrow> exn + node" where
  "next_node Validate_document state =
     route (should_continue_after_validation state)
       [(''continue'', Classify_document), (''error'', Handle_error)]"
| "next_node Classify_document state = Inr Process_document"
| "next_node Process_document state =
     route (should_end_workflow state) [(''end'', END), (''error'', Handle_error)]"
| "next_node Handle_error state = Inr END"
| "next_node END state = Inr END"

fun run_node ::
  "settings \<Rightarrow> 'w library \<Rightarrow> node \<Rightarrow> ('p, 'w) agent \<times> processing_state
     \<Rightarrow> ('p, 'w) agent \<times> processing_state" where
  "run_node S L Validate_document x = node_validate_document L x"
| "run_node S L Classify_document x = node_classify_document L x"
| "run_node S L Process_document x = node_process_document S L x"
| "run_node S L Handle_error x = node_handle_error x"
| "run_node S L END x = x"

fun rank :: "node \<Rightarrow> nat" where
  "rank Validate_document = 4"
| "rank Classify_document = 3"
| "rank Process_document = 2"
| "rank Handle_error = 1"
| "rank END = 0"

text \<open>
  Running the compiled graph from a node: the nodes run, in order, an exception that left
  a router (if any), and the state reached.
\<close>

function (sequential) run_from ::
  "settings \<Rightarrow> 'w library \<Rightarrow> node \<Rightarrow> ('p, 'w) agent \<times> processing_state
     \<Rightarrow> node list \<times> exn option \<times> ('p, 'w) agent \<times> processing_state" where
  "run_from S L END x = ([], None, x)"
| "run_from S L n x =
     (let x' = run_node S L n x
      in case next_node n (snd x') of
           Inl e \<Rightarrow> ([n], Some e, x')
         | Inr n' \<Rightarrow> (case run_from S L n' x' of (visited, r) \<Rightarrow> (n # visited, r)))"
  by pat_completeness auto
termination
  by (relation "measure (\<lambda>(S, L, n, x). rank n)")
     (auto simp: route_def split: sum.splits option.splits if_splits)

text \<open>\<open>self.workflow.invoke\<close>: the edge from \<open>START\<close> leads to \<open>validate_document\<close>.\<close>

definition invoke ::
  "settings \<Rightarrow> 'w library \<Rightarrow> ('p, 'w) agent \<times> processing_state
     \<Rightarrow> node list \<times> exn option \<times> ('p, 'w) agent \<times> processing_state" where
  "invoke S L x = run_from S L Validate_document x"

text \<open>The dictionary that the workflow's \<open>process_document\<close> returns.\<close>

record result =
  status :: string
  result_document_path :: string
  result_document_type :: string
  result_extracted_data :: "contract list"
  result_error_message :: string
  result_messages :: "string list"

definition failed_result :: "string \<Rightarrow> exn \<Rightarrow> result" where
  "failed_result path e =
     \<lparr>status = ''error'', result_document_path = path, result_document_type = ''Unknown'',
      result_extracted_data = [], result_error_message = str_of e,
      result_messages = [''Workflow execution failed: '' @ str_of e]\<rparr>"

definition initial_state :: "string \<Rightarrow> bool \<Rightarrow> bool \<Rightarrow> processing_state" where
  "initial_state path vision pii =
     \<lparr>messages = [HumanMessage (''Process document: '' @ path)], document_path = path,
      document_type = None, extracted_data = None, processing_status = None,
      error_message = None, use_vision = vision, enable_pii_masking = pii\<rparr>"

text \<open>
  The workflow's \<open>process_document\<close>: an exception out of \<open>invoke\<close> or out of reading
  \<open>final_state["processing_status"]\<close> is caught and becomes an error result.
\<close>

definition workflow_process_document ::
  "settings \<Rightarrow> 'w library \<Rightarrow> ('p, 'w) agent \<Rightarrow> string \<Rightarrow> bool \<Rightarrow> bool
     \<Rightarrow> result \<times> ('p, 'w) agent" where
  "workflow_process_document S L a path vision pii =
     (case invoke S L (a, initial_state path vision pii) of
        (visited, Some e, a', final_state) \<Rightarrow> (failed_result path e, a')
      | (visited, None, a', final_state) \<Rightarrow>
          (case processing_status final_state of
             None \<Rightarrow> (failed_result path (KeyError ''processing_status''), a')
           | Some st \<Rightarrow>
               (\<lparr>status = st,
                 result_document_path = document_path final_state,
                 result_document_type =
                   (case document_type final_state of Some t \<Rightarrow> t | None \<Rightarrow> ''Unknown''),
                 result_extracted_data =
                   (case extracted_data final_state of Some d \<Rightarrow> d | None \<Rightarrow> []),
                 result_error_message =
                   (case error_message final_state of Some m \<Rightarrow> m | None \<Rightarrow> []),
                 result_messages = map content (messages final_state)\<rparr>, a')))"

text \<open>The nodes one call of the workflow's \<open>process_document\<close> runs, in order.\<close>

definition nodes_run ::
  "settings \<Rightarrow> 'w library \<Rightarrow> ('p, 'w) agent \<Rightarrow> string \<Rightarrow> bool \<Rightarrow> bool \<Rightarrow> node list" where
  "nodes_run S L a path vision pii = fst (invoke S L (a, initial_state path vision pii))"

section \<open>Vocabulary of the properties\<close>

text \<open>
  The providers that construction finds available, in discovery order (Ollama is probed
  first, Hugging Face second).
\<close>

definition discovered :: "exn + bool \<Rightarrow> exn + bool \<Rightarrow> (string \<times> provider) list" where
  "discovered ollama_probe hf_probe =
     (if ollama_probe = Inr True then [(''ollama'', OllamaProvider)] else []) @
     (if hf_probe = Inr True then [(''huggingface'', HuggingFaceProvider)] else [])"

definition first_available :: "(string \<times> 'p) list \<Rightarrow> 'p option" where
  "first_available found = (case found of [] \<Rightarrow> None | (name, p) # rest \<Rightarrow> Some p)"

text \<open>
  The initialization policy in the specification's words: the configured primary if
  available, else the configured fallback if available, else the first available
  provider, else unset.
\<close>

definition spec_initial_active :: "settings \<Rightarrow> exn + bool \<Rightarrow> exn + bool \<Rightarrow> provider option" where
  "spec_initial_active S ollama_probe hf_probe =
     (let found = discovered ollama_probe hf_probe
      in case map_of found (MODEL_PROVIDER S) of
           Some p \<Rightarrow> Some p
         | None \<Rightarrow> (case map_of found (FALLBACK_PROVIDER S) of
                      Some p \<Rightarrow> Some p
                    | None \<Rightarrow> first_available found))"

text \<open>
  \<open>listAvailable\<close> in the specification's words: of the configured provider names, those
  whose \<open>isAvailable()\<close> returns true at the time of the call.
\<close>

definition spec_list_available :: "(string \<Rightarrow> bool) \<Rightarrow> string list \<Rightarrow> string list" where
  "spec_list_available is_available_now configured = filter is_available_now configured"

text \<open>
  The split-strategy policy in the specification's words: text chunking at or below the
  threshold; above it, image chunking only for a vision-capable provider when the caller
  asked for vision; text chunking in every other case.
\<close>

datatype strategy_kind = Text_chunking | Image_chunking

fun splitter_kind :: "splitter \<Rightarrow> strategy_kind" where
  "splitter_kind (TextSplitter model) = Text_chunking"
| "splitter_kind (ImageSplitter model) = Image_chunking"

definition spec_select_strategy :: "int \<Rightarrow> bool \<Rightarrow> bool \<Rightarrow> strategy_kind" where
  "spec_select_strategy context_window_tokens vision_capable use_vision_requested =
     (if context_window_tokens \<le> 8192 then Text_chunking
      else if vision_capable \<and> use_vision_requested then Image_chunking
      else Text_chunking)"

text \<open>The kind of the splitter that is loaded once \<open>_configure_splitter\<close> has run.\<close>

definition selected_kind ::
  "settings \<Rightarrow> 'w library \<Rightarrow> ('p, 'w) agent \<Rightarrow> strategy_kind option" where
  "selected_kind S L a = map_option splitter_kind (process_splitter (snd (configure_splitter S L a)))"

text \<open>
  What construction establishes and \<open>switch_provider\<close> keeps: the names are distinct and
  not empty, and the active reference is set exactly when the registry is not empty, to
  an object of the registry.
\<close>

definition registry_inv :: "'p manager \<Rightarrow> bool" where
  "registry_inv m =
     (distinct (map fst (providers m)) \<and> [] \<notin> set (map fst (providers m)) \<and>
      (case active_provider m of
         None \<Rightarrow> providers m = []
       | Some p \<Rightarrow> p \<in> set (map snd (providers m))))"

text \<open>The invalid paths: empty, absent from the file system, or of an unsupported format.\<close>

definition invalid_path :: "'w library \<Rightarrow> 'w \<Rightarrow> string \<Rightarrow> bool" where
  "invalid_path L w path = (path = [] \<or> \<not> path_exists L w path \<or> \<not> validate_document path)"

section \<open>Pagination merge\<close>

text \<open>
  Modelled from the spec: the merge of the per-segment partial results. It happens inside
  the extraction library's paginated completion, behind the call
  \<open>self.process.load_file(...).split(...).extract(...)\<close>; no code under src/ merges
  segments. A partial record maps a field name to its value, \<open>None\<close> for a field left
  empty. A later segment fills the fields that are still empty and changes no other.
\<close>

type_synonym partial_record = "string \<Rightarrow> string option"

definition fill_empty :: "partial_record \<Rightarrow> partial_record \<Rightarrow> partial_record" where
  "fill_empty merged segment =
     (\<lambda>field. case merged field of Some v \<Rightarrow> Some v | None \<Rightarrow> segment field)"

definition merge_segments :: "partial_record list \<Rightarrow> partial_record" where
  "merge_segments segments = foldl fill_empty (\<lambda>field. None) segments"

section \<open>Example configurations\<close>

definition example_settings :: settings where
  "example_settings =
     \<lparr>MODEL_PROVIDER = ''ollama'', FALLBACK_PROVIDER = ''huggingface'',
      MAX_CONTEXT_TOKENS = 8192, OLLAMA_API_BASE = ''http://localhost:11434'',
      OLLAMA_MODEL = ''phi4:latest'', OLLAMA_VISION_MODEL = ''moondream:latest''\<rparr>"

text \<open>A world that counts the calls made into it; no call raises.\<close>

definition quiet_library :: "nat library" where
  "quiet_library =
     \<lparr>load_llm = (\<lambda>model w. (None, Suc w)),
      load_splitter = (\<lambda>s w. (None, Suc w)),
      run_extract = (\<lambda>path vision split completion w. (Inr [[(''invoice_number'', ''123'')]], Suc w)),
      path_exists = (\<lambda>w path. path = ''invoice.txt''),
      read_file = (\<lambda>path w. (None, Suc w))\<rparr>"

text \<open>The same world with an extraction that always raises.\<close>

definition failing_library :: "nat library" where
  "failing_library =
     quiet_library\<lparr>run_extract :=
       (\<lambda>path vision split completion w. (Inl (LibraryError ''backend down''), Suc w))\<rparr>"

definition example_agent :: "settings \<Rightarrow> (provider, nat) agent" where
  "example_agent S =
     \<lparr>model_manager = new_manager S (Inr True) (Inr True), api_base = None,
      extractor_llm = None, process_splitter = None, world = 0\<rparr>"

text \<open>Ollama is down, Hugging Face answers; the world counts the calls.\<close>

definition example_backend :: "(provider, unit, nat) backend" where
  "example_backend p prompt kwargs w =
     (case p of
        OllamaProvider \<Rightarrow> (Inl (LibraryError ''connection refused''), Suc w)
      | HuggingFaceProvider \<Rightarrow> (Inr (''echo: '' @ prompt), Suc w))"

text \<open>A later moment at which no provider answers its availability probe.\<close>

definition nothing_available :: "string \<Rightarrow> bool" where
  "nothing_available name = False"

definition openai_settings :: settings where
  "openai_settings = example_settings\<lparr>MODEL_PROVIDER := ''openai''\<rparr>"

definition large_context_settings :: settings where
  "large_context_settings = example_settings\<lparr>MAX_CONTEXT_TOKENS := 16384\<rparr>"

text \<open>A world in which no image splitter can be built.\<close>

definition no_image_library :: "nat library" where
  "no_image_library =
     quiet_library\<lparr>load_splitter :=
       (\<lambda>s w. case s of
                 TextSplitter model \<Rightarrow> (None, Suc w)
               | ImageSplitter model \<Rightarrow> (Some (LibraryError ''no vision model''), Suc w))\<rparr>"

text \<open>Segment A populates \<open>x\<close>; segment B populates \<open>x\<close> and \<open>y\<close>.\<close>

definition segment_A :: "string \<Rightarrow> partial_record" where
  "segment_A a = (\<lambda>field. None)(''x'' := Some a)"

definition segment_B :: "string \<Rightarrow> string \<Rightarrow> partial_record" where
  "segment_B b c = (\<lambda>field. None)(''x'' := Some b, ''y'' := Some c)"

section \<open>Properties of the model manager\<close>

lemma register_if_available_eq:
  "register_if_available name p probe m =
     (if probe = Inr True then m\<lparr>providers := dict_set name p (providers m)\<rparr> else m)"
  by (cases probe) (auto simp: register_if_available_def split: bool.splits)

lemma providers_set_active_provider [simp]:
  "providers (set_active_provider S m) = providers m"
  by (simp add: set_active_provider_def Let_def split: list.splits)

lemma new_manager_eq:
  "new_manager S ollama_probe hf_probe =
     set_active_provider S
       \<lparr>providers = discovered ollama_probe hf_probe, active_provider = None,
        fallback_provider = None\<rparr>"
  by (simp add: new_manager_def initialize_providers_def register_if_available_eq discovered_def)

lemma providers_new_manager:
  "providers (new_manager S ollama_probe hf_probe) = discovered ollama_probe hf_probe"
  by (simp add: new_manager_eq)

lemma active_set_active_provider:
  "active_provider m = None \<Longrightarrow>
   active_provider (set_active_provider S m) =
     (case map_of (providers m) (MODEL_PROVIDER S) of
        Some p \<Rightarrow> Some p
      | None \<Rightarrow> first_available (providers m))"
  by (cases "providers m")
     (auto simp: set_active_provider_def first_available_def dict_has_def Let_def
           split: option.splits)

text \<open>
  Claim C1. \<open>generate\<close> calls the active provider's \<open>generate\<close>. When that call returns,
  its text is the result. When it raises and a fallback provider is set, the fallback is
  called once, in the world the failed call left, and its outcome is the outcome of
  \<open>generate\<close>: its text when it succeeds, its own exception when it fails. When the
  active call raises and no fallback is set, the active provider's exception leaves
  \<open>generate\<close>. The calls made are the active provider alone, or the active provider
  followed by the fallback: never more than one retry.
\<close>

theorem generate_failover:
  fixes be :: "('p, 'k, 'w) backend"
  assumes act: "active_provider m = Some a"
  shows "(\<forall>text w1. be a prompt kwargs w = (Inr text, w1) \<longrightarrow>
            generate be m prompt kwargs w = (Inr text, w1))
       \<and> (\<forall>e w1 f. be a prompt kwargs w = (Inl e, w1) \<and> fallback_provider m = Some f \<longrightarrow>
            generate be m prompt kwargs w = be f prompt kwargs w1)
       \<and> (\<forall>e w1. be a prompt kwargs w = (Inl e, w1) \<and> fallback_provider m = None \<longrightarrow>
            generate be m prompt kwargs w = (Inl e, w1))
       \<and> snd (snd (generate (logged be) m prompt kwargs (w, []))) =
           (case (fst (be a prompt kwargs w), fallback_provider m) of
              (Inl e, Some f) \<Rightarrow> [a, f]
            | _ \<Rightarrow> [a])"
  using act
  by (auto simp: generate_def logged_def Let_def split: prod.splits sum.splits option.splits)

theorem generate_failover_witness:
  "active_provider (new_manager example_settings (Inr True) (Inr True)) = Some OllamaProvider
   \<and> generate example_backend (new_manager example_settings (Inr True) (Inr True)) ''hi'' () 0
       = (Inr ''echo: hi'', 2)
   \<and> snd (snd (generate (logged example_backend)
        (new_manager example_settings (Inr True) (Inr True)) ''hi'' () (0, [])))
       = [OllamaProvider, HuggingFaceProvider]"
proof -
  let ?m = "new_manager example_settings (Inr True) (Inr True)"
  have act: "active_provider ?m = Some OllamaProvider"
    by (simp add: new_manager_eq active_set_active_provider discovered_def example_settings_def)
  have fb: "fallback_provider ?m = Some HuggingFaceProvider"
    by (simp add: new_manager_eq set_active_provider_def discovered_def example_settings_def
        dict_has_def Let_def)
  from generate_failover [OF act, of example_backend "''hi''" "()" 0] fb
  show ?thesis by (simp add: act example_backend_def)
qed

text \<open>
  Claim C3, as the code has it. After construction the active provider is the configured
  primary when that provider was found available; otherwise it is the first available
  provider in discovery order (Ollama, then Hugging Face), whatever the configured
  fallback is; it is unset exactly when no provider was found. Construction returns a
  manager in every case, and with the active provider unset \<open>generate\<close> raises
  \<open>RuntimeError\<close> without calling a backend.
\<close>

theorem initial_active_provider:
  "active_provider (new_manager S ollama_probe hf_probe) =
     (case map_of (discovered ollama_probe hf_probe) (MODEL_PROVIDER S) of
        Some p \<Rightarrow> Some p
      | None \<Rightarrow> first_available (discovered ollama_probe hf_probe))
   \<and> (active_provider (new_manager S ollama_probe hf_probe) = None
        \<longleftrightarrow> discovered ollama_probe hf_probe = [])
   \<and> (discovered ollama_probe hf_probe = [] \<longrightarrow>
        generate be (new_manager S ollama_probe hf_probe) prompt kwargs w =
          (Inl (RuntimeError ''No model providers available''), w))"
proof -
  let ?found = "discovered ollama_probe hf_probe"
  have a: "active_provider (new_manager S ollama_probe hf_probe) =
     (case map_of ?found (MODEL_PROVIDER S) of Some p \<Rightarrow> Some p | None \<Rightarrow> first_available ?found)"
    by (simp add: new_manager_eq active_set_active_provider split: option.splits)
  have b: "(case map_of ?found (MODEL_PROVIDER S) of Some p \<Rightarrow> Some p
            | None \<Rightarrow> first_available ?found) = None \<longleftrightarrow> ?found = []"
    by (cases ?found) (auto simp: first_available_def split: option.splits)
  have c: "?found = [] \<longrightarrow> generate be (new_manager S ollama_probe hf_probe) prompt kwargs w =
          (Inl (RuntimeError ''No model providers available''), w)"
    using a b by (auto simp: generate_def)
  from a b c show ?thesis by simp
qed

theorem initial_active_provider_witness:
  "discovered (Inr False) (Inl (LibraryError ''no model'')) = []
   \<and> active_provider (new_manager example_settings (Inr False) (Inl (LibraryError ''no model''))) = None
   \<and> generate example_backend
        (new_manager example_settings (Inr False) (Inl (LibraryError ''no model''))) ''hi'' () 0
       = (Inl (RuntimeError ''No model providers available''), 0)"
proof -
  have d: "discovered (Inr False) (Inl (LibraryError ''no model'')) = []"
    by (simp add: discovered_def)
  from initial_active_provider [of example_settings "Inr False" "Inl (LibraryError ''no model'')"
      example_backend "''hi''" "()" 0] d
  show ?thesis by (simp add: first_available_def)
qed

text \<open>
  Claim C3 as stated prefers the configured fallback to the first available provider.
  With \<open>MODEL_PROVIDER = openai\<close>, \<open>FALLBACK_PROVIDER = huggingface\<close> and both local
  providers available, the code activates Ollama.
\<close>

theorem initial_active_provider_counterexample:
  "active_provider (new_manager openai_settings (Inr True) (Inr True)) = Some OllamaProvider
   \<and> spec_initial_active openai_settings (Inr True) (Inr True) = Some HuggingFaceProvider"
  by (simp add: new_manager_eq active_set_active_provider spec_initial_active_def discovered_def
      first_available_def openai_settings_def example_settings_def)

text \<open>
  Claim C4, as the code has it. \<open>switch_provider\<close> with a name absent from the registry
  returns \<open>False\<close>, raises nothing and leaves the manager as it was; with a name that is
  present it returns \<open>True\<close> and the only change is that the active reference is the
  provider registered under that name.
\<close>

theorem switch_provider_result:
  "(\<not> dict_has (providers m) name \<longrightarrow> switch_provider name m = (Inr False, m))
   \<and> (dict_has (providers m) name \<longrightarrow>
        switch_provider name m = (Inr True, m\<lparr>active_provider := map_of (providers m) name\<rparr>)
        \<and> map_of (providers m) name \<noteq> None
        \<and> fallback_provider (snd (switch_provider name m)) = fallback_provider m
        \<and> providers (snd (switch_provider name m)) = providers m)"
  by (simp add: switch_provider_def dict_has_def)

theorem switch_provider_result_witness:
  "\<not> dict_has (providers (new_manager example_settings (Inr True) (Inr True))) ''openai''
   \<and> dict_has (providers (new_manager example_settings (Inr True) (Inr True))) ''huggingface''
   \<and> switch_provider ''openai'' (new_manager example_settings (Inr True) (Inr True))
       = (Inr False, new_manager example_settings (Inr True) (Inr True))
   \<and> active_provider (snd (switch_provider ''huggingface''
         (new_manager example_settings (Inr True) (Inr True)))) = Some HuggingFaceProvider"
proof -
  let ?m = "new_manager example_settings (Inr True) (Inr True)"
  have p: "providers ?m = [(''ollama'', OllamaProvider), (''huggingface'', HuggingFaceProvider)]"
    by (simp add: providers_new_manager discovered_def)
  have n: "\<not> dict_has (providers ?m) ''openai''" and y: "dict_has (providers ?m) ''huggingface''"
    by (simp_all add: p dict_has_def)
  from switch_provider_result [of ?m "''openai''"] switch_provider_result [of ?m "''huggingface''"]
    n y
  show ?thesis by (simp add: p)
qed

text \<open>
  Claim C4 as stated has the switch to an unknown name raise \<open>ProviderNotFoundError\<close>;
  the call returns normally with the value \<open>False\<close>.
\<close>

theorem switch_provider_counterexample:
  "switch_provider ''openai'' (new_manager example_settings (Inr True) (Inr True))
     = (Inr False, new_manager example_settings (Inr True) (Inr True))
   \<and> \<not> isl (fst (switch_provider ''openai'' (new_manager example_settings (Inr True) (Inr True))))"
  by (simp add: switch_provider_def dict_has_def providers_new_manager discovered_def)

text \<open>
  Claim C5, as the code has it. \<open>get_available_providers\<close> returns the names registered
  at construction, those whose probe returned true then, in discovery order; it reads the
  registry only, and \<open>switch_provider\<close> does not change its result.
\<close>

theorem get_available_providers_registered:
  "get_available_providers (new_manager S ollama_probe hf_probe) =
     (if ollama_probe = Inr True then [''ollama''] else []) @
     (if hf_probe = Inr True then [''huggingface''] else [])
   \<and> get_available_providers (snd (switch_provider name m)) = get_available_providers m"
  by (simp add: get_available_providers_def dict_keys_def providers_new_manager discovered_def
      switch_provider_def)

theorem get_available_providers_registered_witness:
  "get_available_providers (new_manager example_settings (Inr True) (Inl (LibraryError ''no model'')))
     = [''ollama'']
   \<and> get_available_providers (snd (switch_provider ''ollama''
         (new_manager example_settings (Inr True) (Inr True)))) = [''ollama'', ''huggingface'']"
  using get_available_providers_registered [of example_settings "Inr True"
      "Inl (LibraryError ''no model'')" "''ollama''" "new_manager example_settings (Inr True) (Inr True)"]
    get_available_providers_registered [of example_settings "Inr True" "Inr True" "''ollama''"
      "new_manager example_settings (Inr True) (Inr True)"]
  by simp

text \<open>
  Claim C5 as stated re-evaluates availability at each call. Ollama was available at
  construction and no provider is available now: the code still lists \<open>ollama\<close>, the
  list of the currently available providers is empty.
\<close>

theorem get_available_providers_counterexample:
  "get_available_providers (new_manager example_settings (Inr True) (Inr False)) = [''ollama'']
   \<and> spec_list_available nothing_available [''ollama'', ''huggingface''] = []"
  by (simp add: get_available_providers_def dict_keys_def providers_new_manager discovered_def
      spec_list_available_def nothing_available_def)

section \<open>Properties of the agent\<close>

lemma splitter_kind_choose:
  "splitter_kind (choose_splitter S active) =
     (if MAX_CONTEXT_TOKENS S \<le> 8192 then Text_chunking else Image_chunking)"
  by (simp add: choose_splitter_def)

lemma call_load_splitter_ok:
  "fst (load_splitter L s (world a)) = None \<Longrightarrow>
   process_splitter (snd (call_load_splitter L s a)) = Some s
   \<and> fst (call_load_splitter L s a) = None"
  by (cases "load_splitter L s (world a)") (simp add: call_load_splitter_def)

lemma call_load_splitter_fault:
  "fst (load_splitter L s (world a)) = Some e \<Longrightarrow>
   call_load_splitter L s a = (Some e, a\<lparr>world := snd (load_splitter L s (world a))\<rparr>)"
  by (cases "load_splitter L s (world a)") (simp add: call_load_splitter_def)

lemma process_splitter_call_load_splitter:
  "process_splitter (snd (call_load_splitter L s a)) = Some s
   \<or> process_splitter (snd (call_load_splitter L s a)) = process_splitter a"
  by (cases "load_splitter L s (world a)") (auto simp: call_load_splitter_def split: option.splits)

text \<open>
  Claim C2, as the code has it. When the context-window budget is at or below 8192 a
  text-chunking splitter is selected; above it an image-chunking splitter is selected,
  whether or not the provider is vision-capable and whether or not the caller asked for
  vision: neither is an input of the selection. Text chunking is selected above the
  threshold only as the fallback when building or loading the chosen splitter raises, and
  if that fallback raises too the splitter loaded before stays.
\<close>

theorem configure_splitter_selection:
  fixes L :: "'w library" and a :: "('p, 'w) agent"
  shows
  "(fst (load_splitter L (choose_splitter S (get_active_provider_name (model_manager a))) (world a))
      = None \<longrightarrow>
      selected_kind S L a =
        Some (if MAX_CONTEXT_TOKENS S \<le> 8192 then Text_chunking else Image_chunking))
   \<and> (fst (load_splitter L (choose_splitter S (get_active_provider_name (model_manager a))) (world a))
      \<noteq> None \<longrightarrow>
      selected_kind S L a = Some Text_chunking
      \<or> selected_kind S L a = map_option splitter_kind (process_splitter a))"
proof -
  let ?s = "choose_splitter S (get_active_provider_name (model_manager a))"
  have ok: "selected_kind S L a =
        Some (if MAX_CONTEXT_TOKENS S \<le> 8192 then Text_chunking else Image_chunking)"
    if "fst (load_splitter L ?s (world a)) = None"
  proof -
    from call_load_splitter_ok [OF that]
    have "configure_splitter S L a = call_load_splitter L ?s a"
      by (cases "call_load_splitter L ?s a") (simp add: configure_splitter_def)
    with call_load_splitter_ok [OF that] show ?thesis
      by (simp add: selected_kind_def splitter_kind_choose)
  qed
  have bad: "selected_kind S L a = Some Text_chunking
      \<or> selected_kind S L a = map_option splitter_kind (process_splitter a)"
    if "fst (load_splitter L ?s (world a)) \<noteq> None"
  proof -
    from that obtain e where e: "fst (load_splitter L ?s (world a)) = Some e" by blast
    let ?a1 = "a\<lparr>world := snd (load_splitter L ?s (world a))\<rparr>"
    have "configure_splitter S L a = call_load_splitter L (TextSplitter ''text-splitter'') ?a1"
      by (simp add: configure_splitter_def call_load_splitter_fault [OF e])
    with process_splitter_call_load_splitter [of L "TextSplitter ''text-splitter''" ?a1]
    show ?thesis by (auto simp: selected_kind_def)
  qed
  from ok bad show ?thesis by blast
qed

theorem configure_splitter_selection_witness:
  "fst (load_splitter quiet_library
      (choose_splitter large_context_settings
         (get_active_provider_name (model_manager (example_agent large_context_settings))))
      (world (example_agent large_context_settings))) = None
   \<and> selected_kind large_context_settings quiet_library (example_agent large_context_settings)
       = Some Image_chunking
   \<and> fst (load_splitter no_image_library
      (choose_splitter large_context_settings
         (get_active_provider_name (model_manager (example_agent large_context_settings))))
      (world (example_agent large_context_settings))) \<noteq> None
   \<and> selected_kind large_context_settings no_image_library (example_agent large_context_settings)
       = Some Text_chunking"
proof -
  let ?a = "example_agent large_context_settings"
  let ?s = "choose_splitter large_context_settings (get_active_provider_name (model_manager ?a))"
  have s: "?s = ImageSplitter ''ollama/moondream:latest''"
    by (simp add: choose_splitter_def example_agent_def get_active_provider_name_def
        new_manager_eq active_set_active_provider discovered_def
        large_context_settings_def example_settings_def)
  have h1: "fst (load_splitter quiet_library ?s (world ?a)) = None"
    by (simp add: quiet_library_def)
  have h2: "fst (load_splitter no_image_library ?s (world ?a)) \<noteq> None"
    by (simp add: s no_image_library_def quiet_library_def)
  have k: "selected_kind large_context_settings no_image_library ?a = Some Text_chunking"
    unfolding selected_kind_def configure_splitter_def Let_def s
    by (simp add: call_load_splitter_def no_image_library_def quiet_library_def
        example_agent_def)
  from configure_splitter_selection [of quiet_library large_context_settings ?a]
    configure_splitter_selection [of no_image_library large_context_settings ?a] h1 h2 k
  show ?thesis by (simp add: large_context_settings_def)
qed

text \<open>
  Claim C2 as stated selects text chunking whenever vision was not requested. With a
  budget of 16384 tokens and no vision requested the code loads an image splitter.
\<close>

theorem configure_splitter_counterexample:
  "selected_kind large_context_settings quiet_library (example_agent large_context_settings)
     = Some Image_chunking
   \<and> spec_select_strategy (MAX_CONTEXT_TOKENS large_context_settings) False False = Text_chunking"
  by (simp add: selected_kind_def configure_splitter_def call_load_splitter_def quiet_library_def
      choose_splitter_def spec_select_strategy_def large_context_settings_def
      example_settings_def example_agent_def)

text \<open>
  The invariant of the registry holds after construction and is kept by
  \<open>switch_provider\<close>, the only method of the manager that writes a reference later.
\<close>

lemma registry_inv_new_manager: "registry_inv (new_manager S ollama_probe hf_probe)"
proof -
  let ?found = "discovered ollama_probe hf_probe"
  have a: "active_provider (new_manager S ollama_probe hf_probe) =
     (case map_of ?found (MODEL_PROVIDER S) of Some p \<Rightarrow> Some p | None \<Rightarrow> first_available ?found)"
    by (simp add: new_manager_eq active_set_active_provider split: option.splits)
  have d: "distinct (map fst ?found)" and e: "[] \<notin> set (map fst ?found)"
    by (auto simp: discovered_def)
  have "case (case map_of ?found (MODEL_PROVIDER S) of Some p \<Rightarrow> Some p
              | None \<Rightarrow> first_available ?found) of
          None \<Rightarrow> ?found = [] | Some p \<Rightarrow> p \<in> set (map snd ?found)"
    by (cases ?found)
       (auto simp: first_available_def split: option.splits dest!: map_of_SomeD
             intro: rev_image_eqI)
  with a d e show ?thesis
    unfolding registry_inv_def providers_new_manager by simp
qed

lemma registry_inv_switch_provider:
  assumes "registry_inv m"
  shows "registry_inv (snd (switch_provider name m))"
proof (cases "dict_has (providers m) name")
  case False
  with assms show ?thesis by (simp add: switch_provider_def)
next
  case True
  then obtain p where p: "map_of (providers m) name = Some p"
    by (auto simp: dict_has_def)
  then have "(name, p) \<in> set (providers m)" by (rule map_of_SomeD)
  then have "p \<in> set (map snd (providers m))" by (auto intro: rev_image_eqI)
  with assms True p show ?thesis
    by (simp add: registry_inv_def switch_provider_def)
qed

lemma mm_call_load_llm [simp]:
  "model_manager (snd (call_load_llm L name a)) = model_manager a"
  by (cases "load_llm L name (world a)") (auto simp: call_load_llm_def split: option.splits)

lemma mm_call_load_splitter [simp]:
  "model_manager (snd (call_load_splitter L s a)) = model_manager a"
  by (cases "load_splitter L s (world a)") (auto simp: call_load_splitter_def split: option.splits)

lemma mm_setup_huggingface_extractor [simp]:
  "model_manager (snd (setup_huggingface_extractor S L a)) = model_manager a"
  by (simp add: setup_huggingface_extractor_def)

lemma mm_configure_model_provider [simp]:
  "model_manager (snd (configure_model_provider S L a)) = model_manager a"
proof -
  define attempt where "attempt =
     (if get_active_provider_name (model_manager a) = Some ''ollama''
      then call_load_llm L (ollama_model_name S) (a\<lparr>api_base := Some (OLLAMA_API_BASE S)\<rparr>)
      else if get_active_provider_name (model_manager a) = Some ''huggingface''
      then setup_huggingface_extractor S L a
      else call_load_llm L (ollama_model_name S) a)"
  have m: "model_manager (snd attempt) = model_manager a"
    by (simp add: attempt_def)
  have "configure_model_provider S L a =
     (case attempt of (None, a1) \<Rightarrow> (None, a1)
      | (Some e, a1) \<Rightarrow>
          call_load_llm L (ollama_model_name S) (a1\<lparr>api_base := Some (OLLAMA_API_BASE S)\<rparr>))"
    by (simp add: configure_model_provider_def attempt_def Let_def)
  then show ?thesis using m
    by (cases attempt; cases "fst attempt") auto
qed

lemma mm_configure_splitter [simp]:
  "model_manager (snd (configure_splitter S L a)) = model_manager a"
proof -
  define first where
    "first = call_load_splitter L (choose_splitter S (get_active_provider_name (model_manager a))) a"
  have m: "model_manager (snd first) = model_manager a"
    by (simp add: first_def)
  have "configure_splitter S L a =
     (case first of (None, a1) \<Rightarrow> (None, a1)
      | (Some e, a1) \<Rightarrow> call_load_splitter L (TextSplitter ''text-splitter'') a1)"
    by (simp add: configure_splitter_def first_def Let_def)
  then show ?thesis using m
    by (cases first; cases "fst first") auto
qed

lemma mm_process_document [simp]:
  "model_manager (snd (process_document L a path vision splitting completion)) = model_manager a"
  by (cases "run_extract L path vision splitting completion (world a)")
     (simp add: process_document_def)

lemma mm_switch_model_provider:
  "model_manager (snd (switch_model_provider S L name a)) = snd (switch_provider name (model_manager a))"
proof (cases "dict_has (providers (model_manager a)) name")
  case False
  then show ?thesis by (simp add: switch_model_provider_def switch_provider_def)
next
  case True
  let ?a0 = "a\<lparr>model_manager := model_manager a
               \<lparr>active_provider := map_of (providers (model_manager a)) name\<rparr>\<rparr>"
  let ?c1 = "configure_model_provider S L ?a0"
  let ?c2 = "configure_splitter S L (snd ?c1)"
  have m1: "model_manager (snd ?c1) = model_manager ?a0" by simp
  have m2: "model_manager (snd ?c2) = model_manager ?a0" by simp
  have "snd (switch_model_provider S L name a) = snd ?c1
        \<or> snd (switch_model_provider S L name a) = snd ?c2"
    using True
    by (cases ?c1; cases "fst ?c1"; cases ?c2; cases "fst ?c2")
       (auto simp: switch_model_provider_def switch_provider_def)
  with m1 m2 True show ?thesis
    by (auto simp: switch_provider_def)
qed

lemma find_Some_member: "find P xs = Some x \<Longrightarrow> x \<in> set xs \<and> P x"
  by (induction xs) (auto split: if_splits)

lemma find_name_lookup:
  assumes "distinct (map fst d)" and "find (\<lambda>(name, p). Some p = act) d = Some (n, q)"
  shows "map_of d n = act"
proof -
  from assms(2) have "(n, q) \<in> set d" and "Some q = act"
    by (auto dest: find_Some_member)
  with assms(1) show ?thesis by simp
qed

lemma active_name_None:
  assumes "registry_inv m" and "get_active_provider_name m = None"
  shows "providers m = [] \<and> active_provider m = None"
proof (cases "active_provider m")
  case None
  with assms(1) show ?thesis by (simp add: registry_inv_def)
next
  case (Some q)
  with assms(1) obtain n where "(n, q) \<in> set (providers m)"
    by (auto simp: registry_inv_def)
  then have "find (\<lambda>(name, p). Some p = Some q) (providers m) \<noteq> None"
    by (auto simp: find_None_iff)
  with assms(2) Some show ?thesis
    by (auto simp: get_active_provider_name_def split: option.splits)
qed

lemma active_name_Some:
  assumes "registry_inv m" and "get_active_provider_name m = Some n"
  shows "map_of (providers m) n = active_provider m \<and> dict_has (providers m) n \<and> n \<noteq> []"
proof -
  from assms(2) obtain q where f: "find (\<lambda>(name, p). Some p = active_provider m) (providers m) = Some (n, q)"
    by (auto simp: get_active_provider_name_def split: option.splits)
  then have mem: "(n, q) \<in> set (providers m)" by (auto dest: find_Some_member)
  from assms(1) have d: "distinct (map fst (providers m))" and ne: "[] \<notin> set (map fst (providers m))"
    by (simp_all add: registry_inv_def)
  from find_name_lookup [OF d f] have l: "map_of (providers m) n = active_provider m" .
  from mem d have "map_of (providers m) n = Some q" by simp
  then have h: "dict_has (providers m) n" by (simp add: dict_has_def)
  from mem ne have "n \<noteq> []" by (metis fst_conv image_eqI set_map)
  with l h show ?thesis by simp
qed

lemma switch_back:
  assumes inv: "registry_inv m" and name: "get_active_provider_name m = Some n"
    and same: "providers m' = providers m"
  shows "snd (switch_provider n m') = m'\<lparr>active_provider := active_provider m\<rparr>"
  using active_name_Some [OF inv name] same by (simp add: switch_provider_def)

lemma switch_provider_frame:
  "providers (snd (switch_provider name m)) = providers m
   \<and> fallback_provider (snd (switch_provider name m)) = fallback_provider m"
  by (simp add: switch_provider_def)

text \<open>
  Claim C9. On a registry as construction and \<open>switch_provider\<close> leave it,
  \<open>process_document_with_provider\<close> ends with the active provider it started with, for
  every provider name and whether the switch fails, the extraction raises or it returns:
  the whole manager is as before the call.
\<close>

theorem provider_restored:
  fixes L :: "'w library" and a :: "('p, 'w) agent"
  assumes inv: "registry_inv (model_manager a)"
  shows "active_provider (model_manager (snd (process_document_with_provider S L a file_path
            provider_name vision splitting completion))) = active_provider (model_manager a)
       \<and> model_manager (snd (process_document_with_provider S L a file_path
            provider_name vision splitting completion)) = model_manager a"
proof -
  let ?m = "model_manager a"
  let ?orig = "get_active_provider_name ?m"
  let ?pd = "\<lambda>x. process_document L x file_path vision splitting completion"
  let ?run = "process_document_with_provider S L a file_path provider_name vision splitting completion"
  have "model_manager (snd ?run) = ?m"
  proof (cases "truthy provider_name \<and> provider_name \<noteq> ?orig")
    case False
    then have "?run = ?pd a"
      by (cases provider_name; cases ?orig)
         (auto simp: process_document_with_provider_def Let_def)
    then show ?thesis by simp
  next
    case True
    then obtain name where pn: "provider_name = Some name" by (cases provider_name) auto
    define body where "body =
      (case switch_model_provider S L name a of
         (False, a1) \<Rightarrow> (Inl (ValueError (''Cannot switch to provider: '' @ name)), a1)
       | (True, a1) \<Rightarrow> ?pd a1)"
    have mb: "model_manager (snd body) = snd (switch_provider name ?m)"
      unfolding body_def
      using mm_switch_model_provider [of S L name a]
      by (cases "switch_model_provider S L name a"; cases "fst (switch_model_provider S L name a)")
         auto
    show ?thesis
    proof (cases ?orig)
      case None
      from active_name_None [OF inv None] have "\<not> dict_has (providers ?m) name"
        by (simp add: dict_has_def)
      then have "snd (switch_provider name ?m) = ?m" by (simp add: switch_provider_def)
      moreover have "?run = body"
        using True pn None by (simp add: process_document_with_provider_def body_def Let_def)
      ultimately show ?thesis using mb by simp
    next
      case (Some original)
      have t: "truthy ?orig" using active_name_Some [OF inv Some] Some by simp
      have "?run = (fst body, snd (switch_model_provider S L original (snd body)))"
        using True pn Some t by (simp add: process_document_with_provider_def body_def Let_def)
      then have "model_manager (snd ?run) = snd (switch_provider original (model_manager (snd body)))"
        by (simp add: mm_switch_model_provider)
      also have "\<dots> = (model_manager (snd body))\<lparr>active_provider := active_provider ?m\<rparr>"
        by (rule switch_back [OF inv Some]) (simp add: mb switch_provider_frame)
      also have "\<dots> = ?m"
        by (simp add: mb switch_provider_def)
      finally show ?thesis .
    qed
  qed
  then show ?thesis by simp
qed

theorem provider_restored_witness:
  "registry_inv (model_manager (example_agent example_settings))
   \<and> fst (process_document_with_provider example_settings failing_library
           (example_agent example_settings) ''invoice.txt'' (Some ''huggingface'') False
           LAZY PAGINATE) = Inl (LibraryError ''backend down'')
   \<and> active_provider (model_manager (snd (process_document_with_provider example_settings
           failing_library (example_agent example_settings) ''invoice.txt''
           (Some ''huggingface'') False LAZY PAGINATE))) = Some OllamaProvider"
proof -
  let ?a = "example_agent example_settings"
  have inv: "registry_inv (model_manager ?a)"
    by (simp add: example_agent_def registry_inv_new_manager)
  have act: "active_provider (model_manager ?a) = Some OllamaProvider"
    by (simp add: example_agent_def new_manager_eq active_set_active_provider discovered_def
        example_settings_def)
  have res: "fst (process_document_with_provider example_settings failing_library ?a
           ''invoice.txt'' (Some ''huggingface'') False LAZY PAGINATE)
         = Inl (LibraryError ''backend down'')"
    by (simp add: process_document_with_provider_def switch_model_provider_def
        switch_provider_def configure_model_provider_def configure_splitter_def
        setup_huggingface_extractor_def call_load_llm_def call_load_splitter_def
        process_document_def get_active_provider_name_def get_available_providers_def
        dict_keys_def dict_has_def choose_splitter_def example_agent_def new_manager_eq
        set_active_provider_def discovered_def failing_library_def quiet_library_def
        example_settings_def Let_def)
  from provider_restored [OF inv, of example_settings failing_library "''invoice.txt''"
      "Some ''huggingface''" False LAZY PAGINATE] inv act res
  show ?thesis by simp
qed

lemmas path_defs = validate_document_def suffix_of_def path_name_def path_parts_def rfind_def
  lower_def lower_char_def get_supported_formats_def Let_def

lemma lower_char_fixed:
  "lower_char CHR ''.'' = CHR ''.''" "lower_char CHR ''/'' = CHR ''/''"
  by (simp_all add: lower_char_def)

lemma lower_extension_shape:
  assumes "lower ext \<in> set get_supported_formats"
  shows "\<exists>rest. ext = CHR ''.'' # rest \<and> rest \<noteq> [] \<and> CHR ''.'' \<notin> set rest \<and> CHR ''/'' \<notin> set rest"
proof -
  have dot: "c = CHR ''.''" if "lower_char c = CHR ''.''" for c
    using that by (simp add: lower_char_def split: if_splits)
  have keep: "CHR ''.'' \<notin> set rest \<and> CHR ''/'' \<notin> set rest"
    if "CHR ''.'' \<notin> set (lower rest)" and "CHR ''/'' \<notin> set (lower rest)" for rest
    using that lower_char_fixed by (force simp: lower_def)
  from assms obtain c rest where e: "ext = c # rest" and c: "lower_char c = CHR ''.''"
    and r: "rest \<noteq> []" "CHR ''.'' \<notin> set (lower rest)" "CHR ''/'' \<notin> set (lower rest)"
    by (cases ext) (auto simp: get_supported_formats_def lower_def)
  from dot [OF c] keep [OF r(2,3)] e r(1) show ?thesis by simp
qed

lemma rfind_absent: "c \<notin> set s \<Longrightarrow> rfind c s = - 1"
proof -
  assume "c \<notin> set s"
  then have "filter (\<lambda>i. s ! i = c) (rev [0..<length s]) = []"
    by (auto simp: filter_empty_conv)
  then show ?thesis by (simp add: rfind_def)
qed

lemma rfind_snoc: "rfind c (s @ [x]) = (if x = c then int (length s) else rfind c s)"
proof -
  have "filter (\<lambda>i. (s @ [x]) ! i = c) (rev [0..<length s]) =
        filter (\<lambda>i. s ! i = c) (rev [0..<length s])"
    by (rule filter_cong) (auto simp: nth_append)
  then show ?thesis by (simp add: rfind_def)
qed

lemma rfind_last_occurrence: "c \<notin> set rest \<Longrightarrow> rfind c (stem @ c # rest) = int (length stem)"
proof (induction rest rule: rev_induct)
  case Nil
  then show ?case using rfind_snoc [of c stem c] by simp
next
  case (snoc x rest)
  then show ?case using rfind_snoc [of c "stem @ c # rest" x] by auto
qed

lemma split_sep_no_sep: "c \<notin> set s \<Longrightarrow> split_sep c s = [s]"
  by (induction s) auto

lemma path_name_plain:
  "CHR ''/'' \<notin> set s \<Longrightarrow> s \<noteq> [] \<Longrightarrow> s \<noteq> ''.'' \<Longrightarrow> path_name s = s"
  by (simp add: path_name_def path_parts_def split_sep_no_sep)

lemma suffix_of_stem_ext:
  assumes "stem \<noteq> []" "CHR ''/'' \<notin> set stem" "rest \<noteq> []"
    "CHR ''.'' \<notin> set rest" "CHR ''/'' \<notin> set rest"
  shows "suffix_of (stem @ CHR ''.'' # rest) = CHR ''.'' # rest"
proof -
  let ?s = "stem @ CHR ''.'' # rest"
  have n: "path_name ?s = ?s"
    using assms by (intro path_name_plain) (auto simp: append_eq_Cons_conv)
  have i: "rfind CHR ''.'' ?s = int (length stem)"
    using assms(4) by (rule rfind_last_occurrence)
  show ?thesis using assms(1,3) by (simp add: suffix_of_def n i Let_def)
qed

lemma accepts_any_case:
  assumes "stem \<noteq> []" "CHR ''/'' \<notin> set stem" "lower ext \<in> set get_supported_formats"
  shows "validate_document (stem @ ext)"
proof -
  from lower_extension_shape [OF assms(3)] obtain rest where
    e: "ext = CHR ''.'' # rest" and r: "rest \<noteq> []" "CHR ''.'' \<notin> set rest" "CHR ''/'' \<notin> set rest"
    by blast
  have "suffix_of (stem @ ext) = ext"
    unfolding e using assms(1,2) r by (rule suffix_of_stem_ext)
  with assms(3) show ?thesis by (simp add: validate_document_def Let_def)
qed

lemma rejects_no_dot:
  assumes "CHR ''.'' \<notin> set (path_name file_path)"
  shows "\<not> validate_document file_path"
proof -
  have "suffix_of file_path = []"
    using assms by (simp add: suffix_of_def rfind_absent Let_def)
  then show ?thesis
    by (simp add: validate_document_def get_supported_formats_def lower_def Let_def)
qed

text \<open>
  Claim C10. \<open>validate_document\<close> accepts a path exactly when the suffix of its last
  component, lowercased, is one of the nine supported extensions. The letter case of the
  extension does not matter: a file name made of a non-empty stem and an extension whose
  lowercase form is supported is accepted, \<open>scan.PDF\<close> among them. A path whose last
  component holds no dot is rejected.
\<close>

theorem validate_document_iff:
  "(validate_document file_path \<longleftrightarrow>
      lower (suffix_of file_path) \<in>
        {''.pdf'', ''.png'', ''.jpg'', ''.jpeg'', ''.tiff'', ''.bmp'', ''.docx'', ''.doc'', ''.txt''})
   \<and> (stem \<noteq> [] \<and> CHR ''/'' \<notin> set stem \<and> lower ext \<in> set get_supported_formats \<longrightarrow>
        validate_document (stem @ ext))
   \<and> (CHR ''.'' \<notin> set (path_name file_path) \<longrightarrow> \<not> validate_document file_path)
   \<and> validate_document ''scan.PDF''
   \<and> \<not> validate_document ''README''"
proof -
  have a: "validate_document file_path \<longleftrightarrow>
      lower (suffix_of file_path) \<in>
        {''.pdf'', ''.png'', ''.jpg'', ''.jpeg'', ''.tiff'', ''.bmp'', ''.docx'', ''.doc'', ''.txt''}"
    by (simp add: validate_document_def get_supported_formats_def Let_def)
  have b: "validate_document ''scan.PDF''" by (simp add: path_defs)
  have c: "\<not> validate_document ''README''" by (simp add: path_defs)
  from a b c accepts_any_case [of stem ext] rejects_no_dot [of file_path]
  show ?thesis by blast
qed

theorem validate_document_iff_witness:
  "CHR ''.'' \<notin> set (path_name ''docs/archive.d/notes'')
   \<and> \<not> validate_document ''docs/archive.d/notes''
   \<and> lower ''.Jpeg'' \<in> set get_supported_formats
   \<and> validate_document (''Invoice'' @ ''.Jpeg'')"
proof -
  have h: "CHR ''.'' \<notin> set (path_name ''docs/archive.d/notes'')" by (simp add: path_defs)
  have l: "lower ''.Jpeg'' \<in> set get_supported_formats" by (simp add: path_defs)
  from validate_document_iff [THEN conjunct2, of "''Invoice''" "''.Jpeg''"
      "''docs/archive.d/notes''"] h l
  show ?thesis by simp
qed

section \<open>Properties of the pagination merge\<close>

lemma fill_empty_Some: "merged field = Some v \<Longrightarrow> fill_empty merged segment field = Some v"
  by (simp add: fill_empty_def)

lemma fill_empty_None: "merged field = None \<Longrightarrow> fill_empty merged segment field = segment field"
  by (simp add: fill_empty_def)

lemma foldl_fill_empty_Some:
  "merged field = Some v \<Longrightarrow> foldl fill_empty merged segments field = Some v"
  by (induction segments arbitrary: merged) (simp_all add: fill_empty_Some)

lemma foldl_fill_empty_None:
  "merged field = None \<Longrightarrow> \<forall>s \<in> set earlier. s field = None \<Longrightarrow>
   foldl fill_empty merged earlier field = None"
  by (induction earlier arbitrary: merged) (simp_all add: fill_empty_None)

text \<open>
  Claim C8, on the merge modelled from the specification. The value of a field in the
  merged record is the one written by the first segment that populates the field; adding
  later segments never changes a populated field. With segment A populating \<open>x\<close> and
  segment B populating \<open>x\<close> and \<open>y\<close>, the merged record holds A's value for \<open>x\<close> and
  B's value for \<open>y\<close>.
\<close>

theorem merge_first_writer_wins:
  "((\<forall>s \<in> set earlier. s field = None) \<and> segment field = Some v \<longrightarrow>
      merge_segments (earlier @ segment # later) field = Some v)
   \<and> (merge_segments segments field = Some v \<longrightarrow>
      merge_segments (segments @ extra) field = Some v)
   \<and> merge_segments [segment_A a, segment_B b c] ''x'' = Some a
   \<and> merge_segments [segment_A a, segment_B b c] ''y'' = Some c"
proof -
  have first: "merge_segments (earlier @ segment # later) field = Some v"
    if none: "\<forall>s \<in> set earlier. s field = None" and some: "segment field = Some v"
  proof -
    let ?m = "foldl fill_empty (\<lambda>field. None) earlier"
    have "?m field = None"
      using none by (simp add: foldl_fill_empty_None)
    then have "fill_empty ?m segment field = Some v"
      using some by (simp add: fill_empty_None)
    then have "foldl fill_empty (fill_empty ?m segment) later field = Some v"
      by (rule foldl_fill_empty_Some)
    then show ?thesis by (simp add: merge_segments_def)
  qed
  have keep: "merge_segments (segments @ extra) field = Some v"
    if "merge_segments segments field = Some v"
    using that by (simp add: merge_segments_def foldl_fill_empty_Some)
  have x: "merge_segments [segment_A a, segment_B b c] ''x'' = Some a"
    by (simp add: merge_segments_def fill_empty_def segment_A_def)
  have y: "merge_segments [segment_A a, segment_B b c] ''y'' = Some c"
    by (simp add: merge_segments_def fill_empty_def segment_A_def segment_B_def)
  from first keep x y show ?thesis by blast
qed

theorem merge_first_writer_wins_witness:
  "segment_A ''1'' ''y'' = None \<and> segment_B ''2'' ''3'' ''y'' = Some ''3''
   \<and> merge_segments ([segment_A ''1''] @ segment_B ''2'' ''3'' # []) ''y'' = Some ''3''
   \<and> merge_segments [segment_A ''1''] ''x'' = Some ''1''
   \<and> merge_segments ([segment_A ''1''] @ [segment_B ''2'' ''3'']) ''x'' = Some ''1''"
proof -
  have h1: "\<forall>s \<in> set [segment_A ''1'']. s ''y'' = None" by (simp add: segment_A_def)
  have h2: "segment_B ''2'' ''3'' ''y'' = Some ''3''" by (simp add: segment_B_def)
  have h3: "merge_segments [segment_A ''1''] ''x'' = Some ''1''"
    by (simp add: merge_segments_def fill_empty_def segment_A_def)
  from merge_first_writer_wins [where earlier = "[segment_A ''1'']" and field = "''y''"
      and segment = "segment_B ''2'' ''3''" and v = "''3''" and later = "[]"]
    merge_first_writer_wins [where segments = "[segment_A ''1'']" and field = "''x''"
      and v = "''1''" and extra = "[segment_B ''2'' ''3'']"]
    h1 h2 h3
  show ?thesis by (simp add: segment_A_def)
qed

section \<open>Properties of the workflow\<close>

lemma validate_invalid:
  assumes "invalid_path L (world a) (document_path state)"
  shows "\<exists>msg. msg \<noteq> [] \<and> node_validate_document L (a, state) =
           (a, state\<lparr>processing_status := Some ''error'', error_message := Some msg\<rparr>)"
  using assms by (auto simp: node_validate_document_def invalid_path_def Let_def)

lemma validate_valid:
  assumes "\<not> invalid_path L (world a) (document_path state)"
  shows "node_validate_document L (a, state) =
           (a, state\<lparr>processing_status := Some ''validated'',
                messages := messages state @
                  [AIMessage (''Document validated successfully: '' @ path_name (document_path state))]\<rparr>)"
  using assms by (auto simp: node_validate_document_def invalid_path_def Let_def)

lemma run_from_handle_error:
  "run_from S L Handle_error x = ([Handle_error], None, node_handle_error x)"
  by simp

lemma run_from_validate_error:
  assumes "node_validate_document L x = (a, state)" and "processing_status state = Some ''error''"
  shows "run_from S L Validate_document x =
           ([Validate_document, Handle_error], None, node_handle_error (a, state))"
  using assms by (simp add: route_def should_continue_after_validation_def)

lemma invoke_invalid:
  assumes "invalid_path L (world a) path"
  shows "\<exists>msg. msg \<noteq> [] \<and> invoke S L (a, initial_state path vision pii) =
     ([Validate_document, Handle_error], None, a,
      (initial_state path vision pii)\<lparr>processing_status := Some ''error'', error_message := Some msg,
         messages := [HumanMessage (''Process document: '' @ path), AIMessage (''Error: '' @ msg)]\<rparr>)"
proof -
  have "invalid_path L (world a) (document_path (initial_state path vision pii))"
    using assms by (simp add: initial_state_def)
  from validate_invalid [OF this] obtain msg where m: "msg \<noteq> []"
    and v: "node_validate_document L (a, initial_state path vision pii) =
       (a, (initial_state path vision pii)\<lparr>processing_status := Some ''error'', error_message := Some msg\<rparr>)"
    by blast
  have "invoke S L (a, initial_state path vision pii) =
     ([Validate_document, Handle_error], None,
       node_handle_error (a, (initial_state path vision pii)\<lparr>processing_status := Some ''error'', error_message := Some msg\<rparr>))"
    unfolding invoke_def by (rule run_from_validate_error [OF v]) simp
  then show ?thesis using m
    by (auto simp: node_handle_error_def initial_state_def)
qed

text \<open>
  Claim C6, as the code has it. For an empty path, a missing file or an unsupported
  extension the workflow's \<open>process_document\<close> returns status \<open>error\<close> with a non-empty
  error message; only the validation node and the error node run, and the agent, with the
  outside world, is as before, so neither the classifier nor the extraction was called.
  The message list has exactly two entries: the request message put there before the
  graph runs and the error message.
\<close>

theorem invalid_path_result:
  fixes L :: "'w library" and a :: "('p, 'w) agent"
  assumes "invalid_path L (world a) path"
  shows "status (fst (workflow_process_document S L a path vision pii)) = ''error''
       \<and> result_error_message (fst (workflow_process_document S L a path vision pii)) \<noteq> []
       \<and> nodes_run S L a path vision pii = [Validate_document, Handle_error]
       \<and> snd (workflow_process_document S L a path vision pii) = a
       \<and> result_messages (fst (workflow_process_document S L a path vision pii)) =
           [''Process document: '' @ path,
            ''Error: '' @ result_error_message (fst (workflow_process_document S L a path vision pii))]"
proof -
  from invoke_invalid [OF assms, of S vision pii] obtain msg where m: "msg \<noteq> []"
    and i: "invoke S L (a, initial_state path vision pii) =
     ([Validate_document, Handle_error], None, a,
      (initial_state path vision pii)\<lparr>processing_status := Some ''error'', error_message := Some msg,
         messages := [HumanMessage (''Process document: '' @ path), AIMessage (''Error: '' @ msg)]\<rparr>)"
    by blast
  show ?thesis using m by (simp add: workflow_process_document_def nodes_run_def i)
qed

theorem invalid_path_result_witness:
  "invalid_path quiet_library (world (example_agent example_settings)) ''missing.pdf''
   \<and> status (fst (workflow_process_document example_settings quiet_library
         (example_agent example_settings) ''missing.pdf'' False True)) = ''error''
   \<and> result_messages (fst (workflow_process_document example_settings quiet_library
         (example_agent example_settings) ''missing.pdf'' False True))
       = [''Process document: missing.pdf'', ''Error: Document not found: missing.pdf'']"
proof -
  let ?a = "example_agent example_settings"
  have h: "invalid_path quiet_library (world ?a) ''missing.pdf''"
    by (simp add: invalid_path_def quiet_library_def)
  have m: "result_error_message (fst (workflow_process_document example_settings quiet_library
         ?a ''missing.pdf'' False True)) = ''Document not found: missing.pdf''"
    by (simp add: workflow_process_document_def invoke_def initial_state_def
        node_validate_document_def node_handle_error_def route_def
        should_continue_after_validation_def quiet_library_def Let_def)
  from invalid_path_result [OF h, of example_settings False True] h m
  show ?thesis by simp
qed

text \<open>
  Claim C6 as stated gives the message list exactly one entry. For the missing file
  \<open>missing.pdf\<close> the list returned has two.
\<close>

theorem invalid_path_counterexample:
  "invalid_path quiet_library (world (example_agent example_settings)) ''missing.pdf''
   \<and> length (result_messages (fst (workflow_process_document example_settings quiet_library
         (example_agent example_settings) ''missing.pdf'' False True))) = 2"
  by (simp add: workflow_process_document_def invoke_def initial_state_def
      node_validate_document_def node_handle_error_def route_def invalid_path_def
      should_continue_after_validation_def quiet_library_def Let_def)

lemma classify_status:
  "processing_status (snd (node_classify_document L x)) = Some ''classified''"
  by (cases x; cases "classify_document L (fst x) (document_path (snd x))")
     (simp add: node_classify_document_def Let_def)

lemma process_status:
  "processing_status (snd (node_process_document S L x)) = Some ''completed''
   \<or> processing_status (snd (node_process_document S L x)) = Some ''error''"
proof -
  obtain a state where x: "x = (a, state)" by (cases x)
  define r where "r = (if MAX_CONTEXT_TOKENS S \<le> 8192
       then extract_with_pagination L a (document_path state)
       else process_document L a (document_path state) (use_vision state) LAZY PAGINATE)"
  have "node_process_document S L x =
     (case r of
        (Inr data, a') \<Rightarrow>
          (a', state\<lparr>extracted_data := Some data, processing_status := Some ''completed'',
             messages := messages state @
               [AIMessage (''Document processed successfully using '' @
                  (if MAX_CONTEXT_TOKENS S \<le> 8192 then ''pagination (limited context)''
                   else ''standard processing'')
                  @ ''. Extracted '' @ str_nat (length data) @ '' data items.'')]\<rparr>)
      | (Inl e, a') \<Rightarrow>
          (a', state\<lparr>processing_status := Some ''error'',
             error_message := Some (''Processing failed: '' @ str_of e)\<rparr>))"
    by (simp add: node_process_document_def x r_def Let_def)
  then show ?thesis
    by (cases r; cases "fst r") auto
qed

lemma handle_error_status:
  "processing_status (snd (node_handle_error x)) = processing_status (snd x)"
  by (cases x) (simp add: node_handle_error_def Let_def)

lemma run_from_process_status:
  "fst (snd (run_from S L Process_document x)) = None
   \<and> (processing_status (snd (snd (snd (run_from S L Process_document x)))) = Some ''completed''
      \<or> processing_status (snd (snd (snd (run_from S L Process_document x)))) = Some ''error'')"
proof -
  let ?x' = "node_process_document S L x"
  from process_status [of S L x] show ?thesis
  proof
    assume c: "processing_status (snd ?x') = Some ''completed''"
    then have "run_from S L Process_document x = ([Process_document], None, ?x')"
      by (simp add: route_def should_end_workflow_def)
    with c show ?thesis by simp
  next
    assume e: "processing_status (snd ?x') = Some ''error''"
    then have "run_from S L Process_document x =
        ([Process_document, Handle_error], None, node_handle_error ?x')"
      by (simp add: route_def should_end_workflow_def)
    with e show ?thesis by (simp add: handle_error_status)
  qed
qed

lemma run_from_classify_status:
  "fst (snd (run_from S L Classify_document x)) = None
   \<and> (processing_status (snd (snd (snd (run_from S L Classify_document x)))) = Some ''completed''
      \<or> processing_status (snd (snd (snd (run_from S L Classify_document x)))) = Some ''error'')"
proof -
  let ?x' = "node_classify_document L x"
  have "run_from S L Classify_document x =
      (case run_from S L Process_document ?x' of (visited, r) \<Rightarrow> (Classify_document # visited, r))"
    by simp
  with run_from_process_status [of S L ?x'] show ?thesis
    by (cases "run_from S L Process_document ?x'") simp
qed

lemma invoke_status:
  "fst (snd (invoke S L (a, initial_state path vision pii))) = None
   \<and> (processing_status (snd (snd (snd (invoke S L (a, initial_state path vision pii))))) = Some ''completed''
      \<or> processing_status (snd (snd (snd (invoke S L (a, initial_state path vision pii))))) = Some ''error'')"
proof (cases "invalid_path L (world a) path")
  case True
  from invoke_invalid [OF True, of S vision pii] show ?thesis by auto
next
  case False
  let ?x = "(a, initial_state path vision pii)"
  let ?x' = "node_validate_document L ?x"
  have "\<not> invalid_path L (world a) (document_path (initial_state path vision pii))"
    using False by (simp add: initial_state_def)
  from validate_valid [OF this] have "processing_status (snd ?x') = Some ''validated''" by simp
  then have "run_from S L Validate_document ?x =
      (case run_from S L Classify_document ?x' of (visited, r) \<Rightarrow> (Validate_document # visited, r))"
    by (simp add: route_def should_continue_after_validation_def)
  with run_from_classify_status [of S L ?x'] show ?thesis
    unfolding invoke_def by (cases "run_from S L Classify_document ?x'") simp
qed

text \<open>
  Claim C7. For every path, every flag combination and every behaviour of the file
  system and of the extraction library, the status in the result of the workflow's
  \<open>process_document\<close> is \<open>completed\<close> or \<open>error\<close>.
\<close>

theorem final_status_terminal:
  "status (fst (workflow_process_document S L a path vision pii)) = ''completed''
   \<or> status (fst (workflow_process_document S L a path vision pii)) = ''error''"
proof -
  obtain visited fault a' final where
    i: "invoke S L (a, initial_state path vision pii) = (visited, fault, a', final)"
    by (cases "invoke S L (a, initial_state path vision pii)") auto
  from invoke_status [of S L a path vision pii] i
  have "fault = None" and "processing_status final = Some ''completed''
      \<or> processing_status final = Some ''error''"
    by simp_all
  then show ?thesis
    by (auto simp: workflow_process_document_def i)
qed

theorem final_status_terminal_witness:
  "status (fst (workflow_process_document example_settings quiet_library
      (example_agent example_settings) ''invoice.txt'' False True)) = ''completed''
   \<and> status (fst (workflow_process_document example_settings failing_library
      (example_agent example_settings) ''invoice.txt'' False True)) = ''error''"
proof -
  let ?a = "example_agent example_settings"
  have v: "validate_document ''invoice.txt''" by (simp add: path_defs)
  have q: "status (fst (workflow_process_document example_settings quiet_library ?a
      ''invoice.txt'' False True)) \<noteq> ''error''"
    by (simp add: workflow_process_document_def invoke_def initial_state_def v
        node_validate_document_def node_classify_document_def node_process_document_def
        classify_document_def extract_with_pagination_def process_document_def route_def
        should_continue_after_validation_def should_end_workflow_def quiet_library_def
        example_settings_def example_agent_def Let_def)
  have f: "status (fst (workflow_process_document example_settings failing_library ?a
      ''invoice.txt'' False True)) \<noteq> ''completed''"
    by (simp add: workflow_process_document_def invoke_def initial_state_def v
        node_validate_document_def node_classify_document_def node_process_document_def
        node_handle_error_def
        classify_document_def extract_with_pagination_def process_document_def route_def
        should_continue_after_validation_def should_end_workflow_def failing_library_def
        quiet_library_def example_settings_def example_agent_def Let_def)
  from final_status_terminal [of example_settings quiet_library ?a "''invoice.txt''" False True]
    final_status_terminal [of example_settings failing_library ?a "''invoice.txt''" False True]
    q f
  show ?thesis by simp
qed

end
